theory Spec2Isabelle
  imports Main "HOL-Library.Product_Lexorder"
begin

section \<open>Dates and the date parser of server.py\<close>

text \<open>
  A calendar date is the triple (year, month, day); with the lexicographic order on
  products this is the chronological order, which is the order PostgreSQL uses for a
  \<^verbatim>\<open>date\<close> column.
\<close>

type_synonym date = "nat \<times> nat \<times> nat"

definition is_leap :: "nat \<Rightarrow> bool" where
  "is_leap y = (y mod 4 = 0 \<and> (y mod 100 \<noteq> 0 \<or> y mod 400 = 0))"

definition days_in_month :: "nat \<Rightarrow> nat \<Rightarrow> nat" where
  "days_in_month y m =
     (if m = 2 then (if is_leap y then 29 else 28)
      else if m = 4 \<or> m = 6 \<or> m = 9 \<or> m = 11 then 30 else 31)"

text \<open>
  The check of Python's \<^verbatim>\<open>datetime.date(year, month, day)\<close>, which raises ValueError
  outside MINYEAR..MAXYEAR (1..9999), outside months 1..12 and outside the days of the month.
\<close>

definition valid_date :: "nat \<Rightarrow> nat \<Rightarrow> nat \<Rightarrow> bool" where
  "valid_date y m d =
     (1 \<le> y \<and> y \<le> 9999 \<and> 1 \<le> m \<and> m \<le> 12 \<and> 1 \<le> d \<and> d \<le> days_in_month y m)"

text \<open>
  A Python \<^verbatim>\<open>str\<close> is a sequence of Unicode code points. The text of a date, which the
  code reads character by character, is modelled as the list of its code points; text that
  the code only stores is kept as \<^typ>\<open>string\<close>. \<open>ascii\<close> gives the code points of an
  ASCII literal.
\<close>

type_synonym unicode = "nat list"

definition ascii :: "string \<Rightarrow> unicode" where
  "ascii s = map of_char s"

text \<open>
  \<^verbatim>\<open>datetime.strptime(s, "%d.%m.%Y")\<close> compiles the format into a regular expression
  and matches it at the start of the text. The directives stand for the groups
  \<^verbatim>\<open>%d = 3[0-1]|[1-2]\d|0[1-9]|[1-9]| [1-9]\<close>, \<^verbatim>\<open>%m = 1[0-2]|0[1-9]|[1-9]\<close> and
  \<^verbatim>\<open>%Y = \d\d\d\d\<close>; the dots of the format are literal. A group is a list of
  alternatives, an alternative a list of character classes. A class is either a set of
  ASCII characters, written as the string of them, or \<^verbatim>\<open>\d\<close>, which on a \<^verbatim>\<open>str\<close> admits
  every Unicode decimal digit.

  The table of the Unicode decimal digits belongs to the Python build and is not part of
  server.py. It is the parameter \<open>decimal\<close> of the parser: \<open>decimal c\<close> is the value of
  the code point \<open>c\<close> as a decimal digit, and \<open>None\<close> when \<open>c\<close> is no decimal digit.
  The same table gives the value of a digit in Python's \<^verbatim>\<open>int\<close>.
\<close>

datatype char_class = OneOf string | Digit

definition in_class :: "(nat \<Rightarrow> nat option) \<Rightarrow> nat \<Rightarrow> char_class \<Rightarrow> bool" where
  "in_class decimal c cl =
     (case cl of OneOf cs \<Rightarrow> c \<in> set (ascii cs) | Digit \<Rightarrow> decimal c \<noteq> None)"

definition digits :: string where
  "digits = ''0123456789''"

definition nonzero :: string where
  "nonzero = ''123456789''"

definition re_d :: "char_class list list" where
  "re_d = [[OneOf ''3'', OneOf ''01''], [OneOf ''12'', Digit], [OneOf ''0'', OneOf nonzero],
           [OneOf nonzero], [OneOf '' '', OneOf nonzero]]"

definition re_m :: "char_class list list" where
  "re_m = [[OneOf ''1'', OneOf ''012''], [OneOf ''0'', OneOf nonzero], [OneOf nonzero]]"

definition re_Y :: "char_class list list" where
  "re_Y = [[Digit, Digit, Digit, Digit]]"

definition re_dot :: "char_class list list" where
  "re_dot = [[OneOf ''.'']]"

fun match_classes ::
  "(nat \<Rightarrow> nat option) \<Rightarrow> char_class list \<Rightarrow> unicode \<Rightarrow> (unicode \<times> unicode) option" where
  "match_classes decimal [] s = Some ([], s)"
| "match_classes decimal (cl # cls) [] = None"
| "match_classes decimal (cl # cls) (c # cs) =
     (if in_class decimal c cl
      then (case match_classes decimal cls cs of
              None \<Rightarrow> None
            | Some (m, r) \<Rightarrow> Some (c # m, r))
      else None)"

text \<open>All ways a group matches a prefix of the text, in the order the alternatives are tried.\<close>

definition match_group ::
  "(nat \<Rightarrow> nat option) \<Rightarrow> char_class list list \<Rightarrow> unicode \<Rightarrow> (unicode \<times> unicode) list" where
  "match_group decimal g s = List.map_filter (\<lambda>alt. match_classes decimal alt s) g"

text \<open>
  All matches of a sequence of groups, in backtracking order: the texts of the groups and
  the unmatched rest. \<^verbatim>\<open>re.match\<close> returns the first of them.
\<close>

fun match_groups ::
  "(nat \<Rightarrow> nat option) \<Rightarrow> char_class list list list \<Rightarrow> unicode
     \<Rightarrow> (unicode list \<times> unicode) list" where
  "match_groups decimal [] s = [([], s)]"
| "match_groups decimal (g # gs) s =
     concat (map (\<lambda>(m, r). map (\<lambda>(ms, r'). (m # ms, r')) (match_groups decimal gs r))
                 (match_group decimal g s))"

text \<open>
  Python's \<^verbatim>\<open>int\<close> on the text of a group. Such a text is made of decimal digits, after
  the one blank that \<^verbatim>\<open>%d\<close> may match in front, which \<^verbatim>\<open>int\<close> skips; \<open>py_int\<close> is
  applied to the texts of groups only.
\<close>

definition digit_val :: "(nat \<Rightarrow> nat option) \<Rightarrow> nat \<Rightarrow> nat" where
  "digit_val decimal c = (case decimal c of None \<Rightarrow> 0 | Some v \<Rightarrow> v)"

definition py_int :: "(nat \<Rightarrow> nat option) \<Rightarrow> unicode \<Rightarrow> nat" where
  "py_int decimal s =
     foldl (\<lambda>n c. 10 * n + digit_val decimal c) 0 (filter (\<lambda>c. c \<noteq> 32) s)"

text \<open>
  \<^verbatim>\<open>datetime.strptime(s, "%d.%m.%Y").date()\<close>: \<open>None\<close> stands for the ValueError that
  strptime raises when the text does not match, when unconverted data remains after the
  match, or when the numbers are no date.
\<close>

definition strptime_date :: "(nat \<Rightarrow> nat option) \<Rightarrow> unicode \<Rightarrow> date option" where
  "strptime_date decimal s =
     (case match_groups decimal [re_d, re_dot, re_m, re_dot, re_Y] s of
        [] \<Rightarrow> None
      | (ms, rest) # _ \<Rightarrow>
          if rest \<noteq> [] then None
          else (let d = py_int decimal (ms ! 0); m = py_int decimal (ms ! 2);
                    y = py_int decimal (ms ! 4)
                in if valid_date y m d then Some (y, m, d) else None))"

text \<open>
  \<^verbatim>\<open>_parse_ddmmyyyy\<close> (server.py, lines 86-92): \<^verbatim>\<open>not s\<close> holds for an absent and for an
  empty text; the ValueError of strptime is caught and becomes \<open>None\<close>.
\<close>

definition parse_ddmmyyyy :: "(nat \<Rightarrow> nat option) \<Rightarrow> unicode option \<Rightarrow> date option" where
  "parse_ddmmyyyy decimal s =
     (case s of
        None \<Rightarrow> None
      | Some t \<Rightarrow> if t = [] then None else strptime_date decimal t)"

text \<open>\<^verbatim>\<open>date.isoformat()\<close>: YYYY-MM-DD, zero padded.\<close>

definition digit_char :: "nat \<Rightarrow> char" where
  "digit_char n = char_of (48 + n mod 10)"

definition pad2 :: "nat \<Rightarrow> string" where
  "pad2 n = [digit_char (n div 10), digit_char n]"

definition pad4 :: "nat \<Rightarrow> string" where
  "pad4 n = [digit_char (n div 1000), digit_char (n div 100), digit_char (n div 10), digit_char n]"

definition isoformat :: "date \<Rightarrow> string" where
  "isoformat dt = (case dt of (y, m, d) \<Rightarrow> pad4 y @ ''-'' @ pad2 m @ ''-'' @ pad2 d)"

section \<open>Request bodies\<close>

record OperatorUpdate =
  ou_status :: string
  ou_feedback :: string
  ou_evidence_path :: "string option"

record InspectorUpdate =
  iu_acceptance :: "string option"
  iu_feedback :: "string option"

record CapUpsert =
  cu_description :: string
  cu_owner :: "string option"
  cu_target_date :: "unicode option"

record CapStep =
  step_no :: int
  step_text :: string
  target_date :: "unicode option"

record CapStepsReplace =
  steps :: "CapStep list"

section \<open>The relational store\<close>

text \<open>
  Modelled from the spec: the schema of the three tables is not part of server.py; the
  columns are those of the statements in server.py, their types those of section 3 of the
  specification. A table is the list of its rows; no key constraint is built in.
\<close>

type_synonym timestamp = nat

record checklist_item =
  ci_checklist_id :: int
  ci_number :: int
  ci_reference :: string
  ci_question :: string
  ci_status :: string
  ci_evidence :: "string option"
  ci_operator_feedback :: string
  ci_acceptance :: "string option"
  ci_inspector_feedback :: "string option"

record cap =
  cap_checklist_id :: int
  cap_item_number :: int
  cap_description :: string
  cap_owner :: "string option"
  cap_target_date :: "date option"
  cap_updated_at :: "timestamp option"

record cap_step =
  cs_checklist_id :: int
  cs_item_number :: int
  cs_step_no :: int
  cs_step_text :: string
  cs_target_date :: "date option"

record db =
  checklist_items :: "checklist_item list"
  caps :: "cap list"
  cap_steps :: "cap_step list"

definition item_key :: "int \<Rightarrow> int \<Rightarrow> checklist_item \<Rightarrow> bool" where
  "item_key cid n r = (ci_checklist_id r = cid \<and> ci_number r = n)"

definition cap_key :: "int \<Rightarrow> int \<Rightarrow> cap \<Rightarrow> bool" where
  "cap_key cid n r = (cap_checklist_id r = cid \<and> cap_item_number r = n)"

definition step_key :: "int \<Rightarrow> int \<Rightarrow> cap_step \<Rightarrow> bool" where
  "step_key cid n r = (cs_checklist_id r = cid \<and> cs_item_number r = n)"

text \<open>
  The statements of server.py as functions of the store; each returns the new store and
  what the cursor reports (the number of rows affected, or the row fetched).
\<close>

definition sql_update_items ::
  "int \<Rightarrow> int \<Rightarrow> (checklist_item \<Rightarrow> checklist_item) \<Rightarrow> db \<Rightarrow> db \<times> nat" where
  "sql_update_items cid n f d =
     (d\<lparr>checklist_items := map (\<lambda>r. if item_key cid n r then f r else r) (checklist_items d)\<rparr>,
      length (filter (item_key cid n) (checklist_items d)))"

definition sql_update_caps :: "int \<Rightarrow> int \<Rightarrow> (cap \<Rightarrow> cap) \<Rightarrow> db \<Rightarrow> db \<times> nat" where
  "sql_update_caps cid n f d =
     (d\<lparr>caps := map (\<lambda>r. if cap_key cid n r then f r else r) (caps d)\<rparr>,
      length (filter (cap_key cid n) (caps d)))"

definition sql_insert_cap :: "cap \<Rightarrow> db \<Rightarrow> db \<times> nat" where
  "sql_insert_cap r d = (d\<lparr>caps := caps d @ [r]\<rparr>, 1)"

definition sql_delete_steps :: "int \<Rightarrow> int \<Rightarrow> db \<Rightarrow> db \<times> nat" where
  "sql_delete_steps cid n d =
     (d\<lparr>cap_steps := filter (\<lambda>r. \<not> step_key cid n r) (cap_steps d)\<rparr>,
      length (filter (step_key cid n) (cap_steps d)))"

definition sql_insert_step :: "cap_step \<Rightarrow> db \<Rightarrow> db \<times> nat" where
  "sql_insert_step r d = (d\<lparr>cap_steps := cap_steps d @ [r]\<rparr>, 1)"

text \<open>The aggregate MAX skips NULL and is NULL when no value is left.\<close>

fun sql_max :: "date option list \<Rightarrow> date option" where
  "sql_max [] = None"
| "sql_max (None # xs) = sql_max xs"
| "sql_max (Some d # xs) = (case sql_max xs of None \<Rightarrow> Some d | Some m \<Rightarrow> Some (max d m))"

definition sql_select_max_target_date :: "int \<Rightarrow> int \<Rightarrow> db \<Rightarrow> db \<times> date option" where
  "sql_select_max_target_date cid n d =
     (d, sql_max (map cs_target_date (filter (step_key cid n) (cap_steps d))))"

section \<open>Connections and transactions\<close>

text \<open>
  A psycopg2 connection: \<open>committed\<close> is the stored state, \<open>working\<close> the state the open
  transaction sees, and \<open>in_transaction\<close> says that a transaction is open (the connection
  is not idle). \<open>stmt_no\<close> counts the calls made on the connection that can raise:
  execute, commit and rollback. A storage fault is an input of the model: \<open>faults i\<close>
  holds when call number \<open>i\<close> on the connection raises. A statement that raises changes
  nothing, a commit that raises has not committed, and a rollback that raises has not
  rolled back.
\<close>

record conn =
  committed :: db
  working :: db
  stmt_no :: nat
  in_transaction :: bool

datatype db_error = DatabaseError

definition execute :: "(nat \<Rightarrow> bool) \<Rightarrow> (db \<Rightarrow> db \<times> 'a) \<Rightarrow> conn \<Rightarrow> (db_error + 'a) \<times> conn" where
  "execute faults stmt c =
     (if faults (stmt_no c)
      then (Inl DatabaseError, c\<lparr>stmt_no := Suc (stmt_no c), in_transaction := True\<rparr>)
      else (Inr (snd (stmt (working c))),
            c\<lparr>working := fst (stmt (working c)), stmt_no := Suc (stmt_no c),
              in_transaction := True\<rparr>))"

definition commit :: "(nat \<Rightarrow> bool) \<Rightarrow> conn \<Rightarrow> (db_error + unit) \<times> conn" where
  "commit faults c =
     (if faults (stmt_no c) then (Inl DatabaseError, c\<lparr>stmt_no := Suc (stmt_no c)\<rparr>)
      else (Inr (), c\<lparr>committed := working c, stmt_no := Suc (stmt_no c),
                      in_transaction := False\<rparr>))"

definition rollback :: "(nat \<Rightarrow> bool) \<Rightarrow> conn \<Rightarrow> (db_error + unit) \<times> conn" where
  "rollback faults c =
     (if faults (stmt_no c) then (Inl DatabaseError, c\<lparr>stmt_no := Suc (stmt_no c)\<rparr>)
      else (Inr (), c\<lparr>working := committed c, stmt_no := Suc (stmt_no c),
                      in_transaction := False\<rparr>))"

text \<open>
  \<^verbatim>\<open>conn.close()\<close>: the server aborts the transaction of a connection that is closed,
  so nothing of it is kept.
\<close>

definition close :: "conn \<Rightarrow> conn" where
  "close c = c\<lparr>working := committed c, in_transaction := False\<rparr>"

text \<open>
  \<^verbatim>\<open>POOL.putconn(conn)\<close> of psycopg2, which is not part of server.py: a connection
  that is not idle is rolled back before the pool takes it back, and an error of that
  rollback leaves \<^verbatim>\<open>putconn\<close>. When the pool holds idle connections enough it closes
  the connection instead of keeping it; for the state of the model that is \<open>close\<close>, which
  leaves what a rollback leaves, so the model follows the first case.
\<close>

definition pool_putconn :: "(nat \<Rightarrow> bool) \<Rightarrow> conn \<Rightarrow> (db_error + unit) \<times> conn" where
  "pool_putconn faults c = (if in_transaction c then rollback faults c else (Inr (), c))"

text \<open>
  \<^verbatim>\<open>put_conn\<close> (server.py, lines 33-40): when \<^verbatim>\<open>POOL.putconn\<close> raises the connection is
  closed, and an error of closing is passed over. \<^verbatim>\<open>put_conn\<close> itself never raises.
\<close>

definition put_conn :: "(nat \<Rightarrow> bool) \<Rightarrow> conn \<Rightarrow> conn" where
  "put_conn faults c =
     (case pool_putconn faults c of (Inl e, c1) \<Rightarrow> close c1 | (Inr u, c1) \<Rightarrow> c1)"

section \<open>The handlers\<close>

text \<open>
  A handler returns the JSON body of its answer or what it raises: an HTTPException (its
  status code; the detail text is left out), or a database error that it lets through.
  The handlers are modelled from the point where \<^verbatim>\<open>get_conn()\<close> has handed out the
  connection. Making the cursor and closing it send nothing to the server and raise
  nothing on an open connection.
\<close>

datatype raised = HTTPException nat | Propagated db_error

datatype response = Ok | OkCount nat | FinalDate "string option"

type_synonym 'a handler = "conn \<Rightarrow> (raised + 'a) \<times> conn"

text \<open>
  The branch \<^verbatim>\<open>except Exception as e: conn.rollback(); raise HTTPException(500, ...)\<close>.
  The call of \<^verbatim>\<open>conn.rollback()\<close> is not guarded: when it raises, its error leaves the
  handler and the HTTPException is never raised.
\<close>

definition except_rollback :: "(nat \<Rightarrow> bool) \<Rightarrow> conn \<Rightarrow> (raised + 'a) \<times> conn" where
  "except_rollback faults c =
     (case rollback faults c of
        (Inl e, c1) \<Rightarrow> (Inl (Propagated e), c1)
      | (Inr u, c1) \<Rightarrow> (Inl (HTTPException 500), c1))"

text \<open>
  The block \<^verbatim>\<open>finally: ...; put_conn(conn)\<close>, which runs on every way out of the
  handler, before the answer or the error leaves it.
\<close>

definition finally_put_conn ::
  "(nat \<Rightarrow> bool) \<Rightarrow> (raised + 'a) \<times> conn \<Rightarrow> (raised + 'a) \<times> conn" where
  "finally_put_conn faults out = (fst out, put_conn faults (snd out))"

text \<open>\<^verbatim>\<open>update_operator\<close> (server.py, lines 128-166).\<close>

definition update_operator ::
  "(nat \<Rightarrow> bool) \<Rightarrow> int \<Rightarrow> int \<Rightarrow> OperatorUpdate \<Rightarrow> response handler" where
  "update_operator faults cid n body c =
     finally_put_conn faults
       (case execute faults
               (case ou_evidence_path body of
                  Some p \<Rightarrow>
                    sql_update_items cid n
                      (\<lambda>r. r\<lparr>ci_status := ou_status body, ci_evidence := Some p,
                              ci_operator_feedback := ou_feedback body\<rparr>)
                | None \<Rightarrow>
                    sql_update_items cid n
                      (\<lambda>r. r\<lparr>ci_status := ou_status body,
                              ci_operator_feedback := ou_feedback body\<rparr>)) c of
          (Inl e, c1) \<Rightarrow> except_rollback faults c1
        | (Inr rowcount, c1) \<Rightarrow>
            if rowcount = 0 then (Inl (HTTPException 404), c1)
            else (case commit faults c1 of
                    (Inl e, c2) \<Rightarrow> except_rollback faults c2
                  | (Inr u, c2) \<Rightarrow> (Inr Ok, c2)))"

text \<open>\<^verbatim>\<open>update_inspector\<close> (server.py, lines 168-194).\<close>

definition update_inspector ::
  "(nat \<Rightarrow> bool) \<Rightarrow> int \<Rightarrow> int \<Rightarrow> InspectorUpdate \<Rightarrow> response handler" where
  "update_inspector faults cid n body c =
     finally_put_conn faults
       (case execute faults
               (sql_update_items cid n
                  (\<lambda>r. r\<lparr>ci_acceptance := iu_acceptance body,
                          ci_inspector_feedback := iu_feedback body\<rparr>)) c of
          (Inl e, c1) \<Rightarrow> except_rollback faults c1
        | (Inr rowcount, c1) \<Rightarrow>
            if rowcount = 0 then (Inl (HTTPException 404), c1)
            else (case commit faults c1 of
                    (Inl e, c2) \<Rightarrow> except_rollback faults c2
                  | (Inr u, c2) \<Rightarrow> (Inr Ok, c2)))"

text \<open>
  \<^verbatim>\<open>upsert_cap\<close> (server.py, lines 221-254). \<open>now\<close> is the value of CURRENT_TIMESTAMP.
  The INSERT names no \<^verbatim>\<open>updated_at\<close>, so the new row takes the default of that column.
  Modelled from the spec: the column default belongs to the schema, which is not part of
  server.py; it is the parameter \<open>dflt\<close>, a function of the current time.
\<close>

definition upsert_cap ::
  "(nat \<Rightarrow> bool) \<Rightarrow> (nat \<Rightarrow> nat option) \<Rightarrow> timestamp \<Rightarrow> (timestamp \<Rightarrow> timestamp option)
     \<Rightarrow> int \<Rightarrow> int \<Rightarrow> CapUpsert \<Rightarrow> response handler" where
  "upsert_cap faults decimal now dflt cid n body c =
     finally_put_conn faults
       (let td = parse_ddmmyyyy decimal (cu_target_date body) in
        case execute faults
               (sql_update_caps cid n
                  (\<lambda>r. r\<lparr>cap_description := cu_description body, cap_owner := cu_owner body,
                          cap_target_date := td, cap_updated_at := Some now\<rparr>)) c of
          (Inl e, c1) \<Rightarrow> except_rollback faults c1
        | (Inr rowcount, c1) \<Rightarrow>
            (case (if rowcount = 0
                   then execute faults
                          (sql_insert_cap
                             \<lparr>cap_checklist_id = cid, cap_item_number = n,
                              cap_description = cu_description body, cap_owner = cu_owner body,
                              cap_target_date = td, cap_updated_at = dflt now\<rparr>) c1
                   else (Inr rowcount, c1)) of
               (Inl e, c2) \<Rightarrow> except_rollback faults c2
             | (Inr k, c2) \<Rightarrow>
                 (case commit faults c2 of
                    (Inl e, c3) \<Rightarrow> except_rollback faults c3
                  | (Inr u, c3) \<Rightarrow> (Inr Ok, c3))))"

text \<open>
  \<^verbatim>\<open>replace_cap_steps\<close> (server.py, lines 281-313). The loop over
  \<^verbatim>\<open>enumerate(body.steps, start=1)\<close> stops at the first statement that raises.
\<close>

fun insert_steps ::
  "(nat \<Rightarrow> bool) \<Rightarrow> (nat \<Rightarrow> nat option) \<Rightarrow> int \<Rightarrow> int \<Rightarrow> int \<Rightarrow> CapStep list \<Rightarrow> conn
     \<Rightarrow> (db_error + unit) \<times> conn" where
  "insert_steps faults decimal cid n idx [] c = (Inr (), c)"
| "insert_steps faults decimal cid n idx (s # ss) c =
     (case execute faults
             (sql_insert_step
                \<lparr>cs_checklist_id = cid, cs_item_number = n, cs_step_no = idx,
                 cs_step_text = step_text s,
                 cs_target_date = parse_ddmmyyyy decimal (target_date s)\<rparr>) c of
        (Inl e, c1) \<Rightarrow> (Inl e, c1)
      | (Inr k, c1) \<Rightarrow> insert_steps faults decimal cid n (idx + 1) ss c1)"

definition replace_cap_steps ::
  "(nat \<Rightarrow> bool) \<Rightarrow> (nat \<Rightarrow> nat option) \<Rightarrow> int \<Rightarrow> int \<Rightarrow> CapStepsReplace
     \<Rightarrow> response handler" where
  "replace_cap_steps faults decimal cid n body c =
     finally_put_conn faults
       (case execute faults (sql_delete_steps cid n) c of
          (Inl e, c1) \<Rightarrow> except_rollback faults c1
        | (Inr k, c1) \<Rightarrow>
            (case insert_steps faults decimal cid n 1 (steps body) c1 of
               (Inl e, c2) \<Rightarrow> except_rollback faults c2
             | (Inr u, c2) \<Rightarrow>
                 (case commit faults c2 of
                    (Inl e, c3) \<Rightarrow> except_rollback faults c3
                  | (Inr v, c3) \<Rightarrow> (Inr (OkCount (length (steps body))), c3))))"

text \<open>
  \<^verbatim>\<open>compute_cap_final_date\<close> (server.py, lines 315-336): a read; the handler neither
  commits nor rolls back, and its \<^verbatim>\<open>except\<close> branch raises the HTTPException at once.
  The aggregate query always yields one row.
\<close>

definition compute_cap_final_date :: "(nat \<Rightarrow> bool) \<Rightarrow> int \<Rightarrow> int \<Rightarrow> response handler" where
  "compute_cap_final_date faults cid n c =
     finally_put_conn faults
       (case execute faults (sql_select_max_target_date cid n) c of
          (Inl e, c1) \<Rightarrow> (Inl (HTTPException 500), c1)
        | (Inr d, c1) \<Rightarrow> (Inr (FinalDate (map_option isoformat d)), c1))"

section \<open>Row relations and sample data\<close>

text \<open>
  What \<^verbatim>\<open>update_operator\<close> may change in a row of \<^verbatim>\<open>checklist_items\<close>: a row of the
  key takes the status and the feedback of the request, and the evidence only when the
  request carries one; every other column, and every other row, stays as it was.
\<close>

definition operator_row ::
  "int \<Rightarrow> int \<Rightarrow> OperatorUpdate \<Rightarrow> checklist_item \<Rightarrow> checklist_item \<Rightarrow> bool" where
  "operator_row cid n body r r' =
     (ci_checklist_id r' = ci_checklist_id r \<and> ci_number r' = ci_number r \<and>
      ci_reference r' = ci_reference r \<and> ci_question r' = ci_question r \<and>
      ci_acceptance r' = ci_acceptance r \<and> ci_inspector_feedback r' = ci_inspector_feedback r \<and>
      (if item_key cid n r
       then ci_status r' = ou_status body \<and> ci_operator_feedback r' = ou_feedback body \<and>
            ci_evidence r' =
              (case ou_evidence_path body of None \<Rightarrow> ci_evidence r | Some p \<Rightarrow> Some p)
       else r' = r))"

text \<open>The same for \<^verbatim>\<open>update_inspector\<close>, which sets both of its columns in every case.\<close>

definition inspector_row ::
  "int \<Rightarrow> int \<Rightarrow> InspectorUpdate \<Rightarrow> checklist_item \<Rightarrow> checklist_item \<Rightarrow> bool" where
  "inspector_row cid n body r r' =
     (ci_checklist_id r' = ci_checklist_id r \<and> ci_number r' = ci_number r \<and>
      ci_reference r' = ci_reference r \<and> ci_question r' = ci_question r \<and>
      ci_status r' = ci_status r \<and> ci_evidence r' = ci_evidence r \<and>
      ci_operator_feedback r' = ci_operator_feedback r \<and>
      (if item_key cid n r
       then ci_acceptance r' = iu_acceptance body \<and> ci_inspector_feedback r' = iu_feedback body
       else r' = r))"

text \<open>A store with one checklist item, and a connection on it with no transaction open.\<close>

definition example_item :: checklist_item where
  "example_item =
     \<lparr>ci_checklist_id = 1, ci_number = 1, ci_reference = ''R-1'', ci_question = ''Q?'',
      ci_status = ''open'', ci_evidence = Some ''photo.png'', ci_operator_feedback = ''none'',
      ci_acceptance = Some ''rejected'', ci_inspector_feedback = Some ''redo''\<rparr>"

definition example_db :: db where
  "example_db = \<lparr>checklist_items = [example_item], caps = [], cap_steps = []\<rparr>"

definition example_conn :: conn where
  "example_conn = \<lparr>committed = example_db, working = example_db, stmt_no = 0, in_transaction = False\<rparr>"

text \<open>
  What the UPDATE of \<^verbatim>\<open>upsert_cap\<close> does to \<^verbatim>\<open>updated_at\<close>: a row of the key is stamped
  with the current time, any other row stays as it was.
\<close>

definition cap_refreshed :: "int \<Rightarrow> int \<Rightarrow> timestamp \<Rightarrow> cap \<Rightarrow> cap \<Rightarrow> bool" where
  "cap_refreshed cid n now r r' =
     (cap_checklist_id r' = cap_checklist_id r \<and> cap_item_number r' = cap_item_number r \<and>
      (if cap_key cid n r then cap_updated_at r' = Some now else r' = r))"

text \<open>A store that already holds a CAP header for the item (1, 1).\<close>

definition example_cap :: cap where
  "example_cap =
     \<lparr>cap_checklist_id = 1, cap_item_number = 1, cap_description = ''old plan'',
      cap_owner = Some ''ann'', cap_target_date = Some (2024, 1, 5), cap_updated_at = Some 3\<rparr>"

definition example_cap_conn :: conn where
  "example_cap_conn =
     \<lparr>committed = example_db\<lparr>caps := [example_cap]\<rparr>,
      working = example_db\<lparr>caps := [example_cap]\<rparr>, stmt_no = 0, in_transaction = False\<rparr>"

text \<open>
  The rows the specification asks for after a replacement: the supplied items in input
  order, numbered by position from \<open>k\<close> on; the \<^verbatim>\<open>step_no\<close> of an item is not read.
\<close>

definition step_rows ::
  "(nat \<Rightarrow> nat option) \<Rightarrow> int \<Rightarrow> int \<Rightarrow> nat \<Rightarrow> CapStep list \<Rightarrow> cap_step list" where
  "step_rows decimal cid n k ss =
     map (\<lambda>(i, s). \<lparr>cs_checklist_id = cid, cs_item_number = n, cs_step_no = int i,
                     cs_step_text = step_text s,
                     cs_target_date = parse_ddmmyyyy decimal (target_date s)\<rparr>)
         (enumerate k ss)"

text \<open>Two supplied steps whose own numbers are out of order, and a store with three steps.\<close>

definition example_steps :: "CapStep list" where
  "example_steps =
     [\<lparr>step_no = 99, step_text = ''a'', target_date = Some (ascii ''05.01.2024'')\<rparr>,
      \<lparr>step_no = 1, step_text = ''b'', target_date = None\<rparr>]"

definition example_steps_conn :: conn where
  "example_steps_conn =
     \<lparr>committed = example_db\<lparr>cap_steps :=
        [\<lparr>cs_checklist_id = 1, cs_item_number = 1, cs_step_no = 1, cs_step_text = ''x'',
          cs_target_date = Some (2024, 1, 5)\<rparr>,
         \<lparr>cs_checklist_id = 1, cs_item_number = 1, cs_step_no = 2, cs_step_text = ''y'',
          cs_target_date = None\<rparr>,
         \<lparr>cs_checklist_id = 1, cs_item_number = 1, cs_step_no = 3, cs_step_text = ''z'',
          cs_target_date = Some (2024, 1, 20)\<rparr>]\<rparr>,
      working = example_db\<lparr>cap_steps :=
        [\<lparr>cs_checklist_id = 1, cs_item_number = 1, cs_step_no = 1, cs_step_text = ''x'',
          cs_target_date = Some (2024, 1, 5)\<rparr>,
         \<lparr>cs_checklist_id = 1, cs_item_number = 1, cs_step_no = 2, cs_step_text = ''y'',
          cs_target_date = None\<rparr>,
         \<lparr>cs_checklist_id = 1, cs_item_number = 1, cs_step_no = 3, cs_step_text = ''z'',
          cs_target_date = Some (2024, 1, 20)\<rparr>]\<rparr>,
      stmt_no = 0, in_transaction = False\<rparr>"


text \<open>The values of a column that are not NULL, and the target dates of the steps of a key.\<close>

fun somes :: "'a option list \<Rightarrow> 'a list" where
  "somes [] = []"
| "somes (None # xs) = somes xs"
| "somes (Some x # xs) = x # somes xs"

definition step_dates :: "int \<Rightarrow> int \<Rightarrow> db \<Rightarrow> date list" where
  "step_dates cid n d = somes (map cs_target_date (filter (step_key cid n) (cap_steps d)))"

text \<open>
  A text that a group matches in full, by one of its alternatives, character by character.
\<close>

definition full_match :: "(nat \<Rightarrow> nat option) \<Rightarrow> char_class list list \<Rightarrow> unicode \<Rightarrow> bool" where
  "full_match decimal g m = (\<exists>alt\<in>set g. list_all2 (in_class decimal) m alt)"

text \<open>
  The pattern in the words of the specification: two digits, a dot, two digits, a dot and
  four digits, and nothing else, the digits being the ASCII digits.
\<close>

definition ascii_class :: "nat \<Rightarrow> string \<Rightarrow> bool" where
  "ascii_class c cs = (c \<in> set (ascii cs))"

definition ddmmyyyy_pattern :: "string list" where
  "ddmmyyyy_pattern =
     [digits, digits, ''.'', digits, digits, ''.'', digits, digits, digits, digits]"

definition exact_ddmmyyyy :: "unicode \<Rightarrow> bool" where
  "exact_ddmmyyyy s = list_all2 ascii_class s ddmmyyyy_pattern"

text \<open>
  What is assumed of the table of decimal digits: among the ASCII characters the decimal
  digits are the characters 0 to 9, with the values 0 to 9. Beyond ASCII the table is
  arbitrary.
\<close>

definition ascii_decimal :: "(nat \<Rightarrow> nat option) \<Rightarrow> bool" where
  "ascii_decimal decimal =
     (\<forall>c<128. decimal c = (if 48 \<le> c \<and> c \<le> 57 then Some (c - 48) else None))"

text \<open>
  A table for the examples: the ASCII digits and the Arabic-Indic digits U+0660 to U+0669.
\<close>

definition example_decimal :: "nat \<Rightarrow> nat option" where
  "example_decimal c =
     (if 48 \<le> c \<and> c \<le> 57 then Some (c - 48)
      else if 1632 \<le> c \<and> c \<le> 1641 then Some (c - 1632)
      else None)"

section \<open>Statements, commit and rollback\<close>

lemma execute_ok:
  "\<not> faults (stmt_no c) \<Longrightarrow>
   execute faults stmt c =
     (Inr (snd (stmt (working c))),
      c\<lparr>working := fst (stmt (working c)), stmt_no := Suc (stmt_no c),
        in_transaction := True\<rparr>)"
  by (simp add: execute_def)

lemma commit_ok:
  "\<not> faults (stmt_no c) \<Longrightarrow>
   commit faults c =
     (Inr (), c\<lparr>committed := working c, stmt_no := Suc (stmt_no c), in_transaction := False\<rparr>)"
  by (simp add: commit_def)

lemma put_conn_idle: "\<not> in_transaction c \<Longrightarrow> put_conn faults c = c"
  by (simp add: put_conn_def pool_putconn_def)

lemma rowcount_pos: "(\<exists>r\<in>set xs. p r) \<Longrightarrow> length (filter p xs) \<noteq> 0"
  by (induction xs) auto

lemma rowcount_zero: "(\<forall>r\<in>set xs. \<not> p r) \<Longrightarrow> length (filter p xs) = 0"
  by (induction xs) auto

lemma map_none_matching:
  "(\<forall>r\<in>set xs. \<not> p r) \<Longrightarrow> map (\<lambda>r. if p r then f r else r) xs = xs"
  by (induction xs) auto

lemma list_all2_map_self: "(\<And>x. x \<in> set xs \<Longrightarrow> R x (f x)) \<Longrightarrow> list_all2 R xs (map f xs)"
  by (induction xs) auto

section \<open>Checklist items\<close>

text \<open>
  C2. For an existing checklist item and a store that raises no fault, \<^verbatim>\<open>update_operator\<close>
  succeeds; in every row of the key it overwrites status and operator_feedback with the
  values of the request and overwrites evidence exactly when the request carries an
  evidence_path, leaving the stored evidence as it was otherwise; reference, question,
  acceptance and inspector_feedback, the rows of other keys and the other tables are
  unchanged.
\<close>

theorem update_operator_frame:
  assumes nf: "\<not> faults (stmt_no c)" "\<not> faults (Suc (stmt_no c))"
      and clean: "working c = committed c"
      and ex: "\<exists>r\<in>set (checklist_items (committed c)). item_key cid n r"
  shows "case update_operator faults cid n body c of
           (res, c') \<Rightarrow>
             res = Inr Ok \<and>
             list_all2 (operator_row cid n body)
               (checklist_items (committed c)) (checklist_items (committed c')) \<and>
             caps (committed c') = caps (committed c) \<and>
             cap_steps (committed c') = cap_steps (committed c)"
proof -
  have rc: "length (filter (item_key cid n) (checklist_items (committed c))) \<noteq> 0"
    using ex by (rule rowcount_pos)
  show ?thesis
  proof (cases "ou_evidence_path body")
    case None
    then show ?thesis
      using nf clean rc
      by (simp add: update_operator_def finally_put_conn_def execute_ok commit_ok
                    put_conn_idle sql_update_items_def operator_row_def list_all2_map_self)
  next
    case (Some p)
    then show ?thesis
      using nf clean rc
      by (simp add: update_operator_def finally_put_conn_def execute_ok commit_ok
                    put_conn_idle sql_update_items_def operator_row_def list_all2_map_self)
  qed
qed

theorem update_operator_frame_witness:
  "case update_operator (\<lambda>i. False) 1 1
          \<lparr>ou_status = ''done'', ou_feedback = ''fixed'', ou_evidence_path = None\<rparr>
          example_conn of
     (res, c') \<Rightarrow>
       res = Inr Ok \<and>
       checklist_items (committed c') =
         [example_item\<lparr>ci_status := ''done'', ci_operator_feedback := ''fixed''\<rparr>] \<and>
       map ci_evidence (checklist_items (committed c')) = [Some ''photo.png'']"
proof -
  have h1: "\<not> (\<lambda>i::nat. False) (stmt_no example_conn)" by simp
  have h2: "\<not> (\<lambda>i::nat. False) (Suc (stmt_no example_conn))" by simp
  have h3: "working example_conn = committed example_conn" by (simp add: example_conn_def)
  have h4: "\<exists>r\<in>set (checklist_items (committed example_conn)). item_key 1 1 r"
    by (simp add: example_conn_def example_db_def example_item_def item_key_def)
  show ?thesis
    using update_operator_frame [OF h1 h2 h3 h4,
      of "\<lparr>ou_status = ''done'', ou_feedback = ''fixed'', ou_evidence_path = None\<rparr>"]
    by (auto simp add: example_conn_def example_db_def example_item_def operator_row_def
          item_key_def list_all2_Cons1 split: prod.splits)
qed

text \<open>
  C8. For an existing checklist item and a store that raises no fault, \<^verbatim>\<open>update_inspector\<close>
  succeeds and sets acceptance and inspector_feedback of every row of the key to the
  values of the request, an absent value being written as NULL; nothing else changes.
\<close>

theorem update_inspector_overwrites:
  assumes nf: "\<not> faults (stmt_no c)" "\<not> faults (Suc (stmt_no c))"
      and clean: "working c = committed c"
      and ex: "\<exists>r\<in>set (checklist_items (committed c)). item_key cid n r"
  shows "case update_inspector faults cid n body c of
           (res, c') \<Rightarrow>
             res = Inr Ok \<and>
             list_all2 (inspector_row cid n body)
               (checklist_items (committed c)) (checklist_items (committed c')) \<and>
             caps (committed c') = caps (committed c) \<and>
             cap_steps (committed c') = cap_steps (committed c)"
proof -
  have rc: "length (filter (item_key cid n) (checklist_items (committed c))) \<noteq> 0"
    using ex by (rule rowcount_pos)
  show ?thesis
    using nf clean rc
    by (simp add: update_inspector_def finally_put_conn_def execute_ok commit_ok
                  put_conn_idle sql_update_items_def inspector_row_def list_all2_map_self)
qed

theorem update_inspector_overwrites_witness:
  "case update_inspector (\<lambda>i. False) 1 1 \<lparr>iu_acceptance = None, iu_feedback = None\<rparr>
          example_conn of
     (res, c') \<Rightarrow>
       res = Inr Ok \<and>
       checklist_items (committed c') =
         [example_item\<lparr>ci_acceptance := None, ci_inspector_feedback := None\<rparr>]"
proof -
  have h1: "\<not> (\<lambda>i::nat. False) (stmt_no example_conn)" by simp
  have h2: "\<not> (\<lambda>i::nat. False) (Suc (stmt_no example_conn))" by simp
  have h3: "working example_conn = committed example_conn" by (simp add: example_conn_def)
  have h4: "\<exists>r\<in>set (checklist_items (committed example_conn)). item_key 1 1 r"
    by (simp add: example_conn_def example_db_def example_item_def item_key_def)
  show ?thesis
    using update_inspector_overwrites [OF h1 h2 h3 h4,
      of "\<lparr>iu_acceptance = None, iu_feedback = None\<rparr>"]
    by (auto simp add: example_conn_def example_db_def example_item_def inspector_row_def
          item_key_def list_all2_Cons1 split: prod.splits)
qed

text \<open>
  C6. When no row of \<^verbatim>\<open>checklist_items\<close> has the key, \<^verbatim>\<open>update_operator\<close> and
  \<^verbatim>\<open>update_inspector\<close> fail: with status 404 when the UPDATE itself ran; when it raised
  a storage fault, with status 500, or with the error of the rollback when that raised
  too. Either way nothing is written: the stored state and the state of the connection
  are the stored state from before. \<^verbatim>\<open>upsert_cap\<close> never answers 404, for any key,
  request, store and fault.
\<close>

theorem item_update_not_found:
  assumes clean: "working c = committed c"
      and none: "\<forall>r\<in>set (checklist_items (committed c)). \<not> item_key cid n r"
  shows "(case update_operator faults cid n ob c of
            (res, c') \<Rightarrow>
              res = Inl (if faults (stmt_no c)
                         then (if faults (Suc (stmt_no c)) then Propagated DatabaseError
                               else HTTPException 500)
                         else HTTPException 404) \<and>
              committed c' = committed c \<and> working c' = committed c) \<and>
         (case update_inspector faults cid n ib c of
            (res, c') \<Rightarrow>
              res = Inl (if faults (stmt_no c)
                         then (if faults (Suc (stmt_no c)) then Propagated DatabaseError
                               else HTTPException 500)
                         else HTTPException 404) \<and>
              committed c' = committed c \<and> working c' = committed c) \<and>
         fst (upsert_cap faults' decimal now dflt cid' n' ub c0) \<noteq> Inl (HTTPException 404)"
proof -
  have rc: "length (filter (item_key cid n) (checklist_items (committed c))) = 0"
    using none by (rule rowcount_zero)
  have op: "case update_operator faults cid n ob c of
            (res, c') \<Rightarrow>
              res = Inl (if faults (stmt_no c)
                         then (if faults (Suc (stmt_no c)) then Propagated DatabaseError
                               else HTTPException 500)
                         else HTTPException 404) \<and>
              committed c' = committed c \<and> working c' = committed c"
    using clean rc
    by (cases "ou_evidence_path ob")
       (simp_all add: update_operator_def finally_put_conn_def except_rollback_def
          execute_def rollback_def put_conn_def pool_putconn_def close_def
          sql_update_items_def)
  have insp: "case update_inspector faults cid n ib c of
            (res, c') \<Rightarrow>
              res = Inl (if faults (stmt_no c)
                         then (if faults (Suc (stmt_no c)) then Propagated DatabaseError
                               else HTTPException 500)
                         else HTTPException 404) \<and>
              committed c' = committed c \<and> working c' = committed c"
    using clean rc
    by (simp add: update_inspector_def finally_put_conn_def except_rollback_def
          execute_def rollback_def put_conn_def pool_putconn_def close_def
          sql_update_items_def)
  have up: "fst (upsert_cap faults' decimal now dflt cid' n' ub c0) \<noteq> Inl (HTTPException 404)"
    by (simp add: upsert_cap_def finally_put_conn_def except_rollback_def execute_def
          commit_def rollback_def Let_def split: prod.splits sum.splits)
  from op insp up show ?thesis by simp
qed

theorem item_update_not_found_witness:
  "fst (update_operator (\<lambda>i. False) 1 2
          \<lparr>ou_status = ''done'', ou_feedback = ''fixed'', ou_evidence_path = Some ''x.png''\<rparr>
          example_conn) = Inl (HTTPException 404) \<and>
   committed (snd (update_operator (\<lambda>i. False) 1 2
          \<lparr>ou_status = ''done'', ou_feedback = ''fixed'', ou_evidence_path = Some ''x.png''\<rparr>
          example_conn)) = example_db \<and>
   working (snd (update_operator (\<lambda>i. False) 1 2
          \<lparr>ou_status = ''done'', ou_feedback = ''fixed'', ou_evidence_path = Some ''x.png''\<rparr>
          example_conn)) = example_db \<and>
   fst (update_inspector (\<lambda>i. False) 1 2 \<lparr>iu_acceptance = Some ''ok'', iu_feedback = None\<rparr>
          example_conn) = Inl (HTTPException 404) \<and>
   fst (upsert_cap (\<lambda>i. False) example_decimal 5 (\<lambda>t. None) 1 2
          \<lparr>cu_description = ''plan'', cu_owner = None, cu_target_date = None\<rparr> example_conn)
     = Inr Ok"
proof -
  have h1: "working example_conn = committed example_conn" by (simp add: example_conn_def)
  have h2: "\<forall>r\<in>set (checklist_items (committed example_conn)). \<not> item_key 1 2 r"
    by (simp add: example_conn_def example_db_def example_item_def item_key_def)
  have c: "committed example_conn = example_db" by (simp add: example_conn_def)
  have s: "stmt_no example_conn = 0" by (simp add: example_conn_def)
  have up: "fst (upsert_cap (\<lambda>i. False) example_decimal 5 (\<lambda>t. None) 1 2
          \<lparr>cu_description = ''plan'', cu_owner = None, cu_target_date = None\<rparr> example_conn)
     = Inr Ok"
    by (simp add: upsert_cap_def finally_put_conn_def execute_def commit_def
          sql_update_caps_def sql_insert_cap_def parse_ddmmyyyy_def example_conn_def
          example_db_def cap_key_def)
  show ?thesis
    using item_update_not_found [OF h1 h2, where faults = "\<lambda>i. False"
      and ob = "\<lparr>ou_status = ''done'', ou_feedback = ''fixed'', ou_evidence_path = Some ''x.png''\<rparr>"
      and ib = "\<lparr>iu_acceptance = Some ''ok'', iu_feedback = None\<rparr>"] up
    by (simp add: c case_prod_beta)
qed

section \<open>CAP headers\<close>

lemma filter_update_key:
  "(\<And>r. p r \<Longrightarrow> p (f r)) \<Longrightarrow>
   filter p (map (\<lambda>r. if p r then f r else r) xs) = map f (filter p xs)"
  by (induction xs) auto

lemma length_filter_le1: "length xs \<le> 1 \<Longrightarrow> xs \<noteq> [] \<Longrightarrow> length xs = Suc 0"
  by (cases xs) auto

text \<open>
  C3. With at most one row of the key in \<^verbatim>\<open>caps\<close> and a store that raises no fault,
  \<^verbatim>\<open>upsert_cap\<close> succeeds and leaves exactly one row of the key. When the key had no
  row (the UPDATE affected zero rows) it appends one row, whose \<^verbatim>\<open>updated_at\<close> is the
  default of the column, not a value set by the handler; when the key had a row it
  inserts nothing and sets \<^verbatim>\<open>updated_at\<close> of that row to the current server time.
\<close>

theorem upsert_cap_update_then_insert:
  assumes nf: "\<not> faults (stmt_no c)" "\<not> faults (Suc (stmt_no c))"
              "\<not> faults (Suc (Suc (stmt_no c)))"
      and clean: "working c = committed c"
      and uniq: "length (filter (cap_key cid n) (caps (committed c))) \<le> 1"
  shows "case upsert_cap faults decimal now dflt cid n body c of
           (res, c') \<Rightarrow>
             res = Inr Ok \<and>
             length (filter (cap_key cid n) (caps (committed c'))) = 1 \<and>
             (if filter (cap_key cid n) (caps (committed c)) = []
              then caps (committed c') =
                     caps (committed c) @
                     [\<lparr>cap_checklist_id = cid, cap_item_number = n,
                       cap_description = cu_description body, cap_owner = cu_owner body,
                       cap_target_date = parse_ddmmyyyy decimal (cu_target_date body),
                       cap_updated_at = dflt now\<rparr>]
              else list_all2 (cap_refreshed cid n now)
                     (caps (committed c)) (caps (committed c')))"
proof (cases "filter (cap_key cid n) (caps (committed c)) = []")
  case True
  then have none: "\<forall>r\<in>set (caps (committed c)). \<not> cap_key cid n r"
    by (simp add: filter_empty_conv)
  have same: "\<And>f. map (\<lambda>r. if cap_key cid n r then f r else r) (caps (committed c))
                = caps (committed c)"
    using none by (rule map_none_matching)
  show ?thesis
    using True nf clean same
    by (simp add: upsert_cap_def finally_put_conn_def put_conn_idle execute_ok commit_ok sql_update_caps_def sql_insert_cap_def
          Let_def cap_key_def)
next
  case False
  have upd: "filter (cap_key cid n)
               (map (\<lambda>r. if cap_key cid n r
                         then r\<lparr>cap_description := cu_description body,
                                cap_owner := cu_owner body,
                                cap_target_date := parse_ddmmyyyy decimal (cu_target_date body),
                                cap_updated_at := Some now\<rparr>
                         else r) xs)
             = map (\<lambda>r. r\<lparr>cap_description := cu_description body,
                            cap_owner := cu_owner body,
                            cap_target_date := parse_ddmmyyyy decimal (cu_target_date body),
                            cap_updated_at := Some now\<rparr>)
                 (filter (cap_key cid n) xs)" for xs
    by (rule filter_update_key) (simp add: cap_key_def)
  have one: "length (filter (cap_key cid n) (caps (committed c))) = Suc 0"
    using uniq False by (rule length_filter_le1)
  show ?thesis
    using False nf clean one
    by (simp add: upsert_cap_def finally_put_conn_def put_conn_idle execute_ok commit_ok sql_update_caps_def Let_def
          upd cap_refreshed_def list_all2_map_self)
qed

theorem upsert_cap_update_then_insert_witness:
  "case upsert_cap (\<lambda>i. False) example_decimal 5 (\<lambda>t. None) 1 1
          \<lparr>cu_description = ''plan'', cu_owner = None, cu_target_date = Some (ascii ''01.03.2024'')\<rparr>
          example_conn of
     (r1, c1) \<Rightarrow>
       (case upsert_cap (\<lambda>i. False) example_decimal 9 (\<lambda>t. None) 1 1
               \<lparr>cu_description = ''plan'', cu_owner = None, cu_target_date = Some (ascii ''01.03.2024'')\<rparr>
               c1 of
          (r2, c2) \<Rightarrow>
            r1 = Inr Ok \<and> r2 = Inr Ok \<and>
            map cap_updated_at (caps (committed c1)) = [None] \<and>
            map cap_updated_at (caps (committed c2)) = [Some 9])"
proof -
  have h1: "\<not> (\<lambda>i::nat. False) (stmt_no example_conn)" by simp
  have h2: "\<not> (\<lambda>i::nat. False) (Suc (stmt_no example_conn))" by simp
  have h3: "\<not> (\<lambda>i::nat. False) (Suc (Suc (stmt_no example_conn)))" by simp
  have h4: "working example_conn = committed example_conn" by (simp add: example_conn_def)
  have h5: "length (filter (cap_key 1 1) (caps (committed example_conn))) \<le> 1"
    by (simp add: example_conn_def example_db_def)
  show ?thesis
    using upsert_cap_update_then_insert [OF h1 h2 h3 h4 h5, where decimal = example_decimal and now = 5 and dflt = "\<lambda>t. None"
      and body = "\<lparr>cu_description = ''plan'', cu_owner = None,
                   cu_target_date = Some (ascii ''01.03.2024'')\<rparr>"]
    by (simp add: upsert_cap_def finally_put_conn_def put_conn_def pool_putconn_def
          execute_def commit_def sql_update_caps_def sql_insert_cap_def
          example_conn_def example_db_def cap_key_def Let_def)
qed

text \<open>
  C10. With a store that raises no fault, \<^verbatim>\<open>upsert_cap\<close> succeeds and afterwards the key
  has a row, and every row of the key holds the description and the owner of the request
  and the parsed target date: an absent owner or date is stored as NULL, and so is a
  date text the parser rejects, whatever was stored before.
\<close>

theorem upsert_cap_full_overwrite:
  assumes nf: "\<not> faults (stmt_no c)" "\<not> faults (Suc (stmt_no c))"
              "\<not> faults (Suc (Suc (stmt_no c)))"
      and clean: "working c = committed c"
  shows "case upsert_cap faults decimal now dflt cid n body c of
           (res, c') \<Rightarrow>
             res = Inr Ok \<and>
             filter (cap_key cid n) (caps (committed c')) \<noteq> [] \<and>
             list_all (\<lambda>r. cap_description r = cu_description body \<and>
                           cap_owner r = cu_owner body \<and>
                           cap_target_date r = parse_ddmmyyyy decimal (cu_target_date body))
               (filter (cap_key cid n) (caps (committed c')))"
proof (cases "filter (cap_key cid n) (caps (committed c)) = []")
  case True
  then have none: "\<forall>r\<in>set (caps (committed c)). \<not> cap_key cid n r"
    by (simp add: filter_empty_conv)
  have same: "\<And>f. map (\<lambda>r. if cap_key cid n r then f r else r) (caps (committed c))
                = caps (committed c)"
    using none by (rule map_none_matching)
  show ?thesis
    using True nf clean same
    by (simp add: upsert_cap_def finally_put_conn_def put_conn_idle execute_ok commit_ok sql_update_caps_def sql_insert_cap_def
          Let_def cap_key_def)
next
  case False
  have upd: "filter (cap_key cid n)
               (map (\<lambda>r. if cap_key cid n r
                         then r\<lparr>cap_description := cu_description body,
                                cap_owner := cu_owner body,
                                cap_target_date := parse_ddmmyyyy decimal (cu_target_date body),
                                cap_updated_at := Some now\<rparr>
                         else r) xs)
             = map (\<lambda>r. r\<lparr>cap_description := cu_description body,
                            cap_owner := cu_owner body,
                            cap_target_date := parse_ddmmyyyy decimal (cu_target_date body),
                            cap_updated_at := Some now\<rparr>)
                 (filter (cap_key cid n) xs)" for xs
    by (rule filter_update_key) (simp add: cap_key_def)
  show ?thesis
    using False nf clean
    by (auto simp add: upsert_cap_def finally_put_conn_def put_conn_idle execute_ok commit_ok sql_update_caps_def Let_def
          upd list_all_iff)
qed

theorem upsert_cap_full_overwrite_witness:
  "case upsert_cap (\<lambda>i. False) example_decimal 9 (\<lambda>t. None) 1 1
          \<lparr>cu_description = '''', cu_owner = None, cu_target_date = Some (ascii ''2024-03-01'')\<rparr>
          example_cap_conn of
     (res, c') \<Rightarrow>
       res = Inr Ok \<and>
       caps (committed c') =
         [\<lparr>cap_checklist_id = 1, cap_item_number = 1, cap_description = '''',
           cap_owner = None, cap_target_date = None, cap_updated_at = Some 9\<rparr>]"
proof -
  have h1: "\<not> (\<lambda>i::nat. False) (stmt_no example_cap_conn)" by simp
  have h2: "\<not> (\<lambda>i::nat. False) (Suc (stmt_no example_cap_conn))" by simp
  have h3: "\<not> (\<lambda>i::nat. False) (Suc (Suc (stmt_no example_cap_conn)))" by simp
  have h4: "working example_cap_conn = committed example_cap_conn"
    by (simp add: example_cap_conn_def)
  have p: "parse_ddmmyyyy example_decimal (Some (ascii ''2024-03-01'')) = None"
    by code_simp
  show ?thesis
    using upsert_cap_full_overwrite [OF h1 h2 h3 h4, where decimal = example_decimal and now = 9 and dflt = "\<lambda>t. None"
      and cid = 1 and n = 1
      and body = "\<lparr>cu_description = '''', cu_owner = None,
                   cu_target_date = Some (ascii ''2024-03-01'')\<rparr>"]
    by (simp add: upsert_cap_def finally_put_conn_def put_conn_def pool_putconn_def
          execute_def commit_def sql_update_caps_def sql_insert_cap_def
          example_cap_conn_def example_cap_def example_db_def cap_key_def Let_def p)
qed

section \<open>CAP steps\<close>

lemma step_rows_Nil: "step_rows decimal cid n k [] = []"
  by (simp add: step_rows_def)

lemma step_rows_Cons:
  "step_rows decimal cid n k (s # ss) =
     \<lparr>cs_checklist_id = cid, cs_item_number = n, cs_step_no = int k,
      cs_step_text = step_text s, cs_target_date = parse_ddmmyyyy decimal (target_date s)\<rparr>
     # step_rows decimal cid n (Suc k) ss"
  by (simp add: step_rows_def)

lemma step_rows_key: "filter (step_key cid n) (step_rows decimal cid n k ss) = step_rows decimal cid n k ss"
  by (induction ss arbitrary: k) (simp_all add: step_rows_Nil step_rows_Cons step_key_def)

lemma step_rows_not_key: "filter (\<lambda>r. \<not> step_key cid n r) (step_rows decimal cid n k ss) = []"
  by (induction ss arbitrary: k) (simp_all add: step_rows_Nil step_rows_Cons step_key_def)

lemma step_rows_numbers: "map cs_step_no (step_rows decimal cid n k ss) = map int [k..<k + length ss]"
proof (induction ss arbitrary: k)
  case Nil
  show ?case by (simp add: step_rows_Nil)
next
  case (Cons s ss)
  have "[k..<k + length (s # ss)] = k # [Suc k..<Suc k + length ss]"
    by (subst upt_rec) simp
  then show ?case using Cons [of "Suc k"] by (simp add: step_rows_Cons)
qed

lemma step_rows_texts: "map cs_step_text (step_rows decimal cid n k ss) = map step_text ss"
  by (induction ss arbitrary: k) (simp_all add: step_rows_Nil step_rows_Cons)

lemma insert_steps_ok:
  "\<forall>i. \<not> faults i \<Longrightarrow>
   insert_steps faults decimal cid n (int k) ss c =
     (Inr (),
      c\<lparr>working := (working c)\<lparr>cap_steps := cap_steps (working c) @ step_rows decimal cid n k ss\<rparr>,
        stmt_no := stmt_no c + length ss,
        in_transaction := in_transaction c \<or> ss \<noteq> []\<rparr>)"
proof (induction ss arbitrary: k c)
  case Nil
  show ?case by (simp add: step_rows_Nil)
next
  case (Cons s ss)
  have next_idx: "int k + 1 = int (Suc k)" by simp
  have nf: "\<not> faults i" for i using Cons.prems by simp
  show ?case
    by (simp add: execute_ok [OF nf] sql_insert_step_def step_rows_Cons
          Cons.IH [OF Cons.prems] next_idx del: of_nat_Suc)
qed

lemma replace_cap_steps_ok:
  assumes nf: "\<forall>i. \<not> faults i"
  shows "replace_cap_steps faults decimal cid n body c =
           (Inr (OkCount (length (steps body))),
            c\<lparr>committed := (working c)\<lparr>cap_steps :=
                  filter (\<lambda>r. \<not> step_key cid n r) (cap_steps (working c))
                  @ step_rows decimal cid n 1 (steps body)\<rparr>,
              working := (working c)\<lparr>cap_steps :=
                  filter (\<lambda>r. \<not> step_key cid n r) (cap_steps (working c))
                  @ step_rows decimal cid n 1 (steps body)\<rparr>,
              stmt_no := Suc (Suc (stmt_no c + length (steps body))),
              in_transaction := False\<rparr>)"
proof -
  have a: "\<not> faults i" for i using nf by simp
  show ?thesis
    by (simp add: replace_cap_steps_def finally_put_conn_def put_conn_idle
          execute_ok [OF a] commit_ok [OF a] sql_delete_steps_def
          insert_steps_ok [OF nf, where k = 1, simplified])
qed

text \<open>
  C1. With a store that raises no fault, \<^verbatim>\<open>replace_cap_steps\<close> succeeds and reports the
  length of the input list. Afterwards the rows of the key are exactly the supplied
  items in input order, numbered 1..N by position whatever \<^verbatim>\<open>step_no\<close> they carried, so
  every earlier row of the key is gone and an empty list leaves none; rows of other keys
  and the other tables are unchanged.
\<close>

theorem replace_cap_steps_full_replace:
  assumes nf: "\<forall>i. \<not> faults i"
      and clean: "working c = committed c"
  shows "case replace_cap_steps faults decimal cid n body c of
           (res, c') \<Rightarrow>
             res = Inr (OkCount (length (steps body))) \<and>
             filter (step_key cid n) (cap_steps (committed c')) = step_rows decimal cid n 1 (steps body) \<and>
             map cs_step_no (filter (step_key cid n) (cap_steps (committed c')))
               = map int [1..<Suc (length (steps body))] \<and>
             map cs_step_text (filter (step_key cid n) (cap_steps (committed c')))
               = map step_text (steps body) \<and>
             filter (\<lambda>r. \<not> step_key cid n r) (cap_steps (committed c'))
               = filter (\<lambda>r. \<not> step_key cid n r) (cap_steps (committed c)) \<and>
             checklist_items (committed c') = checklist_items (committed c) \<and>
             caps (committed c') = caps (committed c)"
  using clean
  by (simp add: replace_cap_steps_ok [OF nf] step_rows_key step_rows_not_key
        step_rows_numbers step_rows_texts)

theorem replace_cap_steps_full_replace_witness:
  "(case replace_cap_steps (\<lambda>i. False) example_decimal 1 1 \<lparr>steps = example_steps\<rparr> example_steps_conn of
      (res, c') \<Rightarrow>
        res = Inr (OkCount 2) \<and>
        cap_steps (committed c') =
          [\<lparr>cs_checklist_id = 1, cs_item_number = 1, cs_step_no = 1, cs_step_text = ''a'',
            cs_target_date = Some (2024, 1, 5)\<rparr>,
           \<lparr>cs_checklist_id = 1, cs_item_number = 1, cs_step_no = 2, cs_step_text = ''b'',
            cs_target_date = None\<rparr>]) \<and>
   (case replace_cap_steps (\<lambda>i. False) example_decimal 1 1 \<lparr>steps = []\<rparr> example_steps_conn of
      (res, c') \<Rightarrow> res = Inr (OkCount 0) \<and> cap_steps (committed c') = [])"
proof -
  have h1: "\<forall>i. \<not> (\<lambda>i::nat. False) i" by simp
  have h2: "working example_steps_conn = committed example_steps_conn"
    by (simp add: example_steps_conn_def)
  have p: "parse_ddmmyyyy example_decimal (Some (ascii ''05.01.2024'')) = Some (2024, 1, 5)"
    by code_simp
  have q: "parse_ddmmyyyy example_decimal None = None"
    by (simp add: parse_ddmmyyyy_def)
  show ?thesis
    using replace_cap_steps_full_replace [OF h1 h2, where decimal = example_decimal and cid = 1 and n = 1
            and body = "\<lparr>steps = example_steps\<rparr>"]
          replace_cap_steps_full_replace [OF h1 h2, where decimal = example_decimal and cid = 1 and n = 1
            and body = "\<lparr>steps = []\<rparr>"]
    by (simp add: replace_cap_steps_def finally_put_conn_def put_conn_def pool_putconn_def
          execute_def commit_def sql_delete_steps_def
          sql_insert_step_def example_steps_def example_steps_conn_def example_db_def
          step_key_def p q)
qed

text \<open>
  C9. Two calls of \<^verbatim>\<open>replace_cap_steps\<close> in succession with the same key and list, on a
  store that raises no fault, both report the length of the list; after each of them the
  rows of the key are the supplied items numbered 1..N in input order, and the second
  call leaves the stored state as the first one left it.
\<close>

theorem replace_cap_steps_idempotent:
  assumes nf1: "\<forall>i. \<not> faults1 i" and nf2: "\<forall>i. \<not> faults2 i"
      and clean: "working c = committed c"
  shows "case replace_cap_steps faults1 decimal cid n body c of
           (r1, c1) \<Rightarrow>
             (case replace_cap_steps faults2 decimal cid n body c1 of
                (r2, c2) \<Rightarrow>
                  r1 = Inr (OkCount (length (steps body))) \<and>
                  r2 = Inr (OkCount (length (steps body))) \<and>
                  filter (step_key cid n) (cap_steps (committed c1))
                    = step_rows decimal cid n 1 (steps body) \<and>
                  filter (step_key cid n) (cap_steps (committed c2))
                    = step_rows decimal cid n 1 (steps body) \<and>
                  committed c2 = committed c1)"
  using clean
  by (simp add: replace_cap_steps_ok [OF nf1] replace_cap_steps_ok [OF nf2]
        step_rows_key step_rows_not_key)

theorem replace_cap_steps_idempotent_witness:
  "case replace_cap_steps (\<lambda>i. False) example_decimal 1 1 \<lparr>steps = example_steps\<rparr> example_conn of
     (r1, c1) \<Rightarrow>
       (case replace_cap_steps (\<lambda>i. False) example_decimal 1 1 \<lparr>steps = example_steps\<rparr> c1 of
          (r2, c2) \<Rightarrow>
            r1 = Inr (OkCount 2) \<and> r2 = Inr (OkCount 2) \<and>
            map cs_step_no (cap_steps (committed c1)) = [1, 2] \<and>
            map cs_step_no (cap_steps (committed c2)) = [1, 2] \<and>
            map cs_step_text (cap_steps (committed c2)) = [''a'', ''b''])"
proof -
  have h1: "\<forall>i. \<not> (\<lambda>i::nat. False) i" by simp
  have h2: "working example_conn = committed example_conn"
    by (simp add: example_conn_def)
  show ?thesis
    using replace_cap_steps_idempotent [OF h1 h1 h2, where decimal = example_decimal and cid = 1 and n = 1
            and body = "\<lparr>steps = example_steps\<rparr>"]
    by (simp add: replace_cap_steps_def finally_put_conn_def put_conn_def pool_putconn_def
          execute_def commit_def sql_delete_steps_def
          sql_insert_step_def example_steps_def example_conn_def example_db_def
          step_key_def step_rows_def)
qed

section \<open>Failure and rollback\<close>












section \<open>The final date\<close>

lemma sql_max_Max:
  "sql_max xs = (if somes xs = [] then None else Some (Max (set (somes xs))))"
proof (induction xs rule: sql_max.induct)
  case 1
  show ?case by simp
next
  case (2 xs)
  then show ?case by simp
next
  case (3 d xs)
  show ?case
  proof (cases "somes xs = []")
    case True
    then show ?thesis using 3 by simp
  next
    case False
    then have ne: "set (somes xs) \<noteq> {}" by simp
    have "Max (insert d (set (somes xs))) = max d (Max (set (somes xs)))"
      using ne by (simp add: Max_insert)
    then show ?thesis using 3 False by simp
  qed
qed

text \<open>
  C5. When the query raises no fault, \<^verbatim>\<open>compute_cap_final_date\<close> answers with the
  greatest target date among the rows of the key in \<^verbatim>\<open>cap_steps\<close>, rows without a date
  not counting, in ISO form; it answers with null, not with an error, when the key has no
  step or no step with a date. It writes nothing.
\<close>

theorem compute_cap_final_date_max:
  assumes nf: "\<not> faults (stmt_no c)"
      and clean: "working c = committed c"
  shows "case compute_cap_final_date faults cid n c of
           (res, c') \<Rightarrow>
             res = Inr (FinalDate
                     (if step_dates cid n (committed c) = [] then None
                      else Some (isoformat (Max (set (step_dates cid n (committed c))))))) \<and>
             committed c' = committed c \<and> working c' = working c"
  using nf clean
  by (simp add: compute_cap_final_date_def finally_put_conn_def execute_ok put_conn_def
        pool_putconn_def rollback_def close_def sql_select_max_target_date_def
        sql_max_Max step_dates_def)

theorem compute_cap_final_date_max_witness:
  "fst (compute_cap_final_date (\<lambda>i. False) 1 1 example_steps_conn)
     = Inr (FinalDate (Some ''2024-01-20'')) \<and>
   fst (compute_cap_final_date (\<lambda>i. False) 1 1 example_conn) = Inr (FinalDate None)"
proof -
  have h1: "\<not> (\<lambda>i::nat. False) (stmt_no example_steps_conn)" by simp
  have h2: "working example_steps_conn = committed example_steps_conn"
    by (simp add: example_steps_conn_def)
  have h3: "\<not> (\<lambda>i::nat. False) (stmt_no example_conn)" by simp
  have h4: "working example_conn = committed example_conn"
    by (simp add: example_conn_def)
  have sd: "step_dates 1 1 (committed example_steps_conn) = [(2024, 1, 5), (2024, 1, 20)]"
    by (simp add: step_dates_def example_steps_conn_def example_db_def step_key_def)
  have ne: "step_dates 1 1 (committed example_steps_conn) \<noteq> []"
    by (simp add: sd)
  have mx: "Max (set (step_dates 1 1 (committed example_steps_conn))) = (2024, 1, 20)"
    by (simp add: sd max_def less_eq_prod_def)
  have iso: "isoformat (2024, 1, 20) = ''2024-01-20''"
    by code_simp
  have fin: "isoformat (Max (set (step_dates 1 1 (committed example_steps_conn)))) = ''2024-01-20''"
    by (simp only: mx iso)
  have em: "step_dates 1 1 (committed example_conn) = []"
    by (simp add: step_dates_def example_conn_def example_db_def)
  show ?thesis
    using compute_cap_final_date_max [OF h1 h2, where cid = 1 and n = 1]
          compute_cap_final_date_max [OF h3 h4, where cid = 1 and n = 1]
    by (simp add: ne fin em split: prod.splits)
qed

section \<open>Date parsing\<close>

lemma ascii_dot: "ascii ''.'' = [46]"
  by (simp add: ascii_def)

lemma match_classes_iff:
  "match_classes dec cls s = Some (m, r) \<longleftrightarrow> s = m @ r \<and> list_all2 (in_class dec) m cls"
proof (induction cls arbitrary: s m r)
  case Nil
  show ?case by auto
next
  case (Cons cl cls)
  show ?case
  proof (cases s)
    case Nil
    then show ?thesis by (auto simp: list_all2_Cons2)
  next
    case s: (Cons c cs)
    show ?thesis
    proof (cases "match_classes dec cls cs")
      case None
      then have no: "\<not> (cs = m' @ r' \<and> list_all2 (in_class dec) m' cls)" for m' r'
        using Cons.IH [of cs m' r'] by simp
      show ?thesis using s None no
        by (auto simp: list_all2_Cons2)
    next
      case (Some p)
      obtain m' r' where p: "p = (m', r')" by (cases p)
      have yes: "cs = m2 @ r2 \<and> list_all2 (in_class dec) m2 cls \<longleftrightarrow> m2 = m' \<and> r2 = r'"
        for m2 r2
        using Cons.IH [of cs m2 r2] Some p by auto
      have fwd: "cs = m' @ r'" "list_all2 (in_class dec) m' cls"
        using yes [of m' r'] by simp_all
      have uniq: "cs = m2 @ r2 \<Longrightarrow> list_all2 (in_class dec) m2 cls \<Longrightarrow> m2 = m' \<and> r2 = r'"
        for m2 r2
        using yes [of m2 r2] by simp
      show ?thesis
      proof
        assume "match_classes dec (cl # cls) s = Some (m, r)"
        with s Some p have "in_class dec c cl" "m = c # m'" "r = r'"
          by (auto split: if_splits)
        with fwd s show "s = m @ r \<and> list_all2 (in_class dec) m (cl # cls)"
          by simp
      next
        assume a: "s = m @ r \<and> list_all2 (in_class dec) m (cl # cls)"
        then obtain zs where m: "m = c # zs" and z1: "in_class dec c cl"
          and z2: "list_all2 (in_class dec) zs cls" and z3: "cs = zs @ r"
          using s by (auto simp: list_all2_Cons2)
        from uniq [OF z3 z2] have "zs = m'" "r = r'" by simp_all
        with s Some p m z1 show "match_classes dec (cl # cls) s = Some (m, r)"
          by simp
      qed
    qed
  qed
qed

lemma match_group_iff:
  "(m, r) \<in> set (match_group dec g s) \<longleftrightarrow> s = m @ r \<and> full_match dec g m"
proof -
  have "(m, r) \<in> set (match_group dec g s) \<longleftrightarrow>
          (\<exists>alt\<in>set g. match_classes dec alt s = Some (m, r))"
    by (auto simp: match_group_def List.map_filter_def image_iff)
  then show ?thesis by (auto simp: match_classes_iff full_match_def)
qed

lemma match_groups_iff:
  "(ms, r) \<in> set (match_groups dec gs s) \<longleftrightarrow>
     s = concat ms @ r \<and> list_all2 (\<lambda>m g. full_match dec g m) ms gs"
proof (induction gs arbitrary: s ms)
  case Nil
  show ?case by auto
next
  case (Cons g gs)
  have "(ms, r) \<in> set (match_groups dec (g # gs) s) \<longleftrightarrow>
          (\<exists>m r1 ms'. (m, r1) \<in> set (match_group dec g s) \<and>
                       (ms', r) \<in> set (match_groups dec gs r1) \<and> ms = m # ms')"
    by fastforce
  also have "\<dots> \<longleftrightarrow> (\<exists>m r1 ms'. s = m @ r1 \<and> full_match dec g m \<and>
                       r1 = concat ms' @ r \<and> list_all2 (\<lambda>m g. full_match dec g m) ms' gs \<and>
                       ms = m # ms')"
    by (simp add: match_group_iff Cons.IH)
  also have "\<dots> \<longleftrightarrow> s = concat ms @ r \<and> list_all2 (\<lambda>m g. full_match dec g m) ms (g # gs)"
    by (auto simp: list_all2_Cons2)
  finally show ?case .
qed

lemma full_match_d_nodot: "dec 46 = None \<Longrightarrow> full_match dec re_d ds \<Longrightarrow> 46 \<notin> set ds"
  by (auto simp: full_match_def re_d_def nonzero_def in_class_def ascii_def list_all2_Cons2)

lemma full_match_m_nodot: "full_match dec re_m ds \<Longrightarrow> 46 \<notin> set ds"
  by (auto simp: full_match_def re_m_def nonzero_def in_class_def ascii_def list_all2_Cons2)

lemma full_match_Y_length: "full_match dec re_Y ys \<Longrightarrow> length ys = 4"
  by (auto simp: full_match_def re_Y_def dest: list_all2_lengthD)

lemma full_match_dot: "full_match dec re_dot m \<longleftrightarrow> m = [46]"
  by (auto simp: full_match_def re_dot_def in_class_def ascii_def list_all2_Cons2)

lemma split_unique:
  "(46::nat) \<notin> set a \<Longrightarrow> 46 \<notin> set a' \<Longrightarrow> a @ 46 # b = a' @ 46 # b' \<Longrightarrow> a = a' \<and> b = b'"
proof (induction a arbitrary: a')
  case Nil
  then show ?case by (cases a') auto
next
  case (Cons x xs)
  then show ?case by (cases a') auto
qed

lemma fmt_matches:
  "(ms, r) \<in> set (match_groups dec [re_d, re_dot, re_m, re_dot, re_Y] s) \<longleftrightarrow>
     (\<exists>ds mm ys. ms = [ds, [46], mm, [46], ys] \<and> s = ds @ [46] @ mm @ [46] @ ys @ r \<and>
                  full_match dec re_d ds \<and> full_match dec re_m mm \<and> full_match dec re_Y ys)"
  unfolding match_groups_iff by (auto simp: list_all2_Cons2 full_match_dot)

lemma fmt_match_unique:
  assumes mem: "(ms, r) \<in> set (match_groups dec [re_d, re_dot, re_m, re_dot, re_Y]
                                   (ds @ [46] @ mm @ [46] @ ys))"
      and dot: "dec 46 = None"
      and nd: "46 \<notin> set ds" and nm: "46 \<notin> set mm" and ly: "length ys = 4"
  shows "ms = [ds, [46], mm, [46], ys] \<and> r = [] \<and>
         full_match dec re_d ds \<and> full_match dec re_m mm \<and> full_match dec re_Y ys"
proof -
  from mem obtain ds' mm' ys' where ms: "ms = [ds', [46], mm', [46], ys']"
    and eq: "ds @ [46] @ mm @ [46] @ ys = ds' @ [46] @ mm' @ [46] @ ys' @ r"
    and fd: "full_match dec re_d ds'" and fm: "full_match dec re_m mm'"
    and fy: "full_match dec re_Y ys'"
    unfolding fmt_matches by blast
  have e1: "ds @ 46 # (mm @ 46 # ys) = ds' @ 46 # (mm' @ 46 # (ys' @ r))"
    using eq by simp
  from split_unique [OF nd full_match_d_nodot [OF dot fd] e1]
  have d: "ds = ds'" and e2: "mm @ 46 # ys = mm' @ 46 # (ys' @ r)" by simp_all
  from split_unique [OF nm full_match_m_nodot [OF fm] e2]
  have m: "mm = mm'" and e3: "ys = ys' @ r" by simp_all
  have "length ys' = 4" using fy by (rule full_match_Y_length)
  with e3 ly have r: "r = []" and y: "ys = ys'" by simp_all
  show ?thesis using ms d m y r fd fm fy by simp
qed

lemma strptime_date_Nil:
  "match_groups dec [re_d, re_dot, re_m, re_dot, re_Y] s = [] \<Longrightarrow> strptime_date dec s = None"
  by (simp add: strptime_date_def del: match_groups.simps)

lemma strptime_date_Cons:
  "match_groups dec [re_d, re_dot, re_m, re_dot, re_Y] s = (ms, r) # others \<Longrightarrow>
   strptime_date dec s =
     (if r \<noteq> [] then None
      else if valid_date (py_int dec (ms ! 4)) (py_int dec (ms ! 2)) (py_int dec (ms ! 0))
           then Some (py_int dec (ms ! 4), py_int dec (ms ! 2), py_int dec (ms ! 0)) else None)"
  by (simp add: strptime_date_def Let_def del: match_groups.simps)

lemma strptime_date_decomposed:
  assumes dot: "dec 46 = None"
      and fd: "full_match dec re_d ds" and fm: "full_match dec re_m mm"
      and fy: "full_match dec re_Y ys"
  shows "strptime_date dec (ds @ [46] @ mm @ [46] @ ys) =
           (if valid_date (py_int dec ys) (py_int dec mm) (py_int dec ds)
            then Some (py_int dec ys, py_int dec mm, py_int dec ds) else None)"
proof -
  define L where "L = match_groups dec [re_d, re_dot, re_m, re_dot, re_Y]
                        (ds @ [46] @ mm @ [46] @ ys)"
  have "([ds, [46], mm, [46], ys], []) \<in> set L"
    unfolding L_def fmt_matches using fd fm fy by simp
  then obtain h others where L: "L = h # others" by (cases L) simp_all
  obtain ms r where h: "h = (ms, r)" by (cases h)
  have "(ms, r) \<in> set L" unfolding L h by simp
  from fmt_match_unique [OF this [unfolded L_def] dot full_match_d_nodot [OF dot fd]
         full_match_m_nodot [OF fm] full_match_Y_length [OF fy]]
  have "ms = [ds, [46], mm, [46], ys]" "r = []" by simp_all
  with L h have "L = ([ds, [46], mm, [46], ys], []) # others" by simp
  from strptime_date_Cons [OF this [unfolded L_def]] show ?thesis by simp
qed

lemma strptime_date_iff:
  assumes dot: "dec 46 = None"
  shows "strptime_date dec s = Some (y, m, d) \<longleftrightarrow>
     (\<exists>ds mm ys. s = ds @ [46] @ mm @ [46] @ ys \<and>
                  full_match dec re_d ds \<and> full_match dec re_m mm \<and> full_match dec re_Y ys \<and>
                  d = py_int dec ds \<and> m = py_int dec mm \<and> y = py_int dec ys \<and>
                  valid_date y m d)"
proof
  assume a: "strptime_date dec s = Some (y, m, d)"
  define L where "L = match_groups dec [re_d, re_dot, re_m, re_dot, re_Y] s"
  have "L \<noteq> []"
    using a strptime_date_Nil [of dec s] unfolding L_def by auto
  then obtain h others where L: "L = h # others" by (cases L) simp_all
  obtain ms r where h: "h = (ms, r)" by (cases h)
  from L h have L': "L = (ms, r) # others" by simp
  note sd = strptime_date_Cons [OF L' [unfolded L_def]]
  from a sd have r: "r = []"
    by (simp split: if_splits)
  have "(ms, r) \<in> set L" unfolding L' by simp
  then obtain ds mm ys where ms: "ms = [ds, [46], mm, [46], ys]"
    and s: "s = ds @ [46] @ mm @ [46] @ ys @ r"
    and f: "full_match dec re_d ds" "full_match dec re_m mm" "full_match dec re_Y ys"
    unfolding L_def fmt_matches by blast
  from a sd r ms have "valid_date (py_int dec ys) (py_int dec mm) (py_int dec ds)"
    and "y = py_int dec ys" "m = py_int dec mm" "d = py_int dec ds"
    by (simp_all split: if_splits)
  with s r f show "\<exists>ds mm ys. s = ds @ [46] @ mm @ [46] @ ys \<and>
                  full_match dec re_d ds \<and> full_match dec re_m mm \<and> full_match dec re_Y ys \<and>
                  d = py_int dec ds \<and> m = py_int dec mm \<and> y = py_int dec ys \<and>
                  valid_date y m d"
    by auto
next
  assume "\<exists>ds mm ys. s = ds @ [46] @ mm @ [46] @ ys \<and>
                  full_match dec re_d ds \<and> full_match dec re_m mm \<and> full_match dec re_Y ys \<and>
                  d = py_int dec ds \<and> m = py_int dec mm \<and> y = py_int dec ys \<and>
                  valid_date y m d"
  then obtain ds mm ys where s: "s = ds @ [46] @ mm @ [46] @ ys"
    and f: "full_match dec re_d ds" "full_match dec re_m mm" "full_match dec re_Y ys"
    and v: "d = py_int dec ds" "m = py_int dec mm" "y = py_int dec ys" "valid_date y m d"
    by blast
  show "strptime_date dec s = Some (y, m, d)"
    unfolding s strptime_date_decomposed [OF dot f] using v by simp
qed

lemma ascii_decimal_digit:
  "ascii_decimal dec \<Longrightarrow> c < 128 \<Longrightarrow>
   dec c = (if 48 \<le> c \<and> c \<le> 57 then Some (c - 48) else None)"
  by (simp add: ascii_decimal_def)

lemma ascii_class_dot: "ascii_class c ''.'' \<longleftrightarrow> c = 46"
  by (simp add: ascii_class_def ascii_def)

lemma digit_cases:
  "ascii_class c digits \<Longrightarrow>
   c = 48 \<or> c = 49 \<or> c = 50 \<or> c = 51 \<or> c = 52 \<or> c = 53 \<or> c = 54 \<or> c = 55 \<or> c = 56 \<or> c = 57"
  by (auto simp: ascii_class_def digits_def ascii_def)

lemma digit_not_dot: "ascii_class c digits \<Longrightarrow> c \<noteq> 46"
  by (auto dest: digit_cases)

lemma exact_ddmmyyyy_shape:
  "exact_ddmmyyyy t \<longleftrightarrow>
     (\<exists>d1 d2 m1 m2 y1 y2 y3 y4.
        t = [d1, d2] @ [46] @ [m1, m2] @ [46] @ [y1, y2, y3, y4] \<and>
        ascii_class d1 digits \<and> ascii_class d2 digits \<and>
        ascii_class m1 digits \<and> ascii_class m2 digits \<and>
        ascii_class y1 digits \<and> ascii_class y2 digits \<and>
        ascii_class y3 digits \<and> ascii_class y4 digits)"
  by (auto simp: exact_ddmmyyyy_def ddmmyyyy_pattern_def list_all2_Cons2 ascii_class_dot)

lemma two_digit_day:
  assumes ad: "ascii_decimal dec" and a: "ascii_class a digits" and b: "ascii_class b digits"
  shows "full_match dec re_d [a, b] \<longleftrightarrow> 1 \<le> py_int dec [a, b] \<and> py_int dec [a, b] \<le> 31"
  using digit_cases [OF a] digit_cases [OF b]
  by (elim disjE)
     (simp_all add: full_match_def re_d_def in_class_def ascii_def nonzero_def py_int_def
        digit_val_def ascii_decimal_digit [OF ad])

lemma two_digit_month:
  assumes ad: "ascii_decimal dec" and a: "ascii_class a digits" and b: "ascii_class b digits"
  shows "full_match dec re_m [a, b] \<longleftrightarrow> 1 \<le> py_int dec [a, b] \<and> py_int dec [a, b] \<le> 12"
  using digit_cases [OF a] digit_cases [OF b]
  by (elim disjE)
     (simp_all add: full_match_def re_m_def in_class_def ascii_def nonzero_def py_int_def
        digit_val_def ascii_decimal_digit [OF ad])

lemma ascii_digit_decimal:
  assumes ad: "ascii_decimal dec" and a: "ascii_class a digits"
  shows "in_class dec a Digit"
  using digit_cases [OF a]
  by (elim disjE) (simp_all add: in_class_def ascii_decimal_digit [OF ad])

lemma four_digit_year:
  "ascii_decimal dec \<Longrightarrow> ascii_class y1 digits \<Longrightarrow> ascii_class y2 digits \<Longrightarrow>
   ascii_class y3 digits \<Longrightarrow> ascii_class y4 digits \<Longrightarrow> full_match dec re_Y [y1, y2, y3, y4]"
  by (simp add: full_match_def re_Y_def ascii_digit_decimal)

lemma valid_date_bounds: "valid_date y m d \<Longrightarrow> 1 \<le> d \<and> d \<le> 31 \<and> 1 \<le> m \<and> m \<le> 12"
  by (auto simp: valid_date_def days_in_month_def split: if_splits)

lemma strptime_date_exact:
  assumes ad: "ascii_decimal dec" and ex: "exact_ddmmyyyy t"
  shows "strptime_date dec t =
           (if valid_date (py_int dec (drop 6 t)) (py_int dec (take 2 (drop 3 t)))
                 (py_int dec (take 2 t))
            then Some (py_int dec (drop 6 t), py_int dec (take 2 (drop 3 t)),
                       py_int dec (take 2 t))
            else None)"
proof -
  from ex obtain d1 d2 m1 m2 y1 y2 y3 y4 where
    t: "t = [d1, d2] @ [46] @ [m1, m2] @ [46] @ [y1, y2, y3, y4]"
    and dd: "ascii_class d1 digits" "ascii_class d2 digits"
    and dm: "ascii_class m1 digits" "ascii_class m2 digits"
    and dy: "ascii_class y1 digits" "ascii_class y2 digits"
            "ascii_class y3 digits" "ascii_class y4 digits"
    unfolding exact_ddmmyyyy_shape by blast
  have dot: "dec 46 = None"
    using ascii_decimal_digit [OF ad, of 46] by simp
  have parts: "take 2 t = [d1, d2]" "take 2 (drop 3 t) = [m1, m2]" "drop 6 t = [y1, y2, y3, y4]"
    by (simp_all add: t)
  have fy: "full_match dec re_Y [y1, y2, y3, y4]"
    using ad dy by (rule four_digit_year)
  have nd: "46 \<notin> set [d1, d2]" using dd [THEN digit_not_dot] by auto
  have nm: "46 \<notin> set [m1, m2]" using dm [THEN digit_not_dot] by auto
  show ?thesis
  proof (cases "full_match dec re_d [d1, d2] \<and> full_match dec re_m [m1, m2]")
    case True
    then have "strptime_date dec t =
           (if valid_date (py_int dec [y1, y2, y3, y4]) (py_int dec [m1, m2]) (py_int dec [d1, d2])
            then Some (py_int dec [y1, y2, y3, y4], py_int dec [m1, m2], py_int dec [d1, d2])
            else None)"
      unfolding t using fy dot by (intro strptime_date_decomposed) simp_all
    then show ?thesis by (simp only: parts)
  next
    case False
    define L where "L = match_groups dec [re_d, re_dot, re_m, re_dot, re_Y] t"
    have "L = []"
    proof (cases L)
      case Nil
      then show ?thesis .
    next
      case (Cons h others)
      obtain ms r where h: "h = (ms, r)" by (cases h)
      have "(ms, r) \<in> set L" unfolding Cons h by simp
      then have "(ms, r) \<in> set (match_groups dec [re_d, re_dot, re_m, re_dot, re_Y]
                   ([d1, d2] @ [46] @ [m1, m2] @ [46] @ [y1, y2, y3, y4]))"
        unfolding L_def t .
      from fmt_match_unique [OF this dot nd nm] False show ?thesis by simp
    qed
    then have none: "strptime_date dec t = None"
      unfolding L_def by (rule strptime_date_Nil)
    have "\<not> valid_date (py_int dec [y1, y2, y3, y4]) (py_int dec [m1, m2]) (py_int dec [d1, d2])"
    proof
      assume "valid_date (py_int dec [y1, y2, y3, y4]) (py_int dec [m1, m2]) (py_int dec [d1, d2])"
      from valid_date_bounds [OF this] two_digit_day [OF ad dd] two_digit_month [OF ad dm] False
      show False by simp
    qed
    with none show ?thesis by (simp only: parts if_False)
  qed
qed

text \<open>
  C4, as amended. Let the table of decimal digits be as Unicode has it on ASCII: there the
  decimal digits are 0 to 9. Then \<^verbatim>\<open>_parse_ddmmyyyy\<close> returns the date (y, m, d) exactly
  when the input is a day text, a dot, a month text, a dot and a year text with nothing
  before or after, where the day text is matched by \<^verbatim>\<open>3[0-1]|[1-2]\d|0[1-9]|[1-9]| [1-9]\<close>,
  the month text by \<^verbatim>\<open>1[0-2]|0[1-9]|[1-9]\<close> and the year text by \<^verbatim>\<open>\d\d\d\d\<close>, with
  \<^verbatim>\<open>\d\<close> any Unicode decimal digit and every other character an ASCII one, and the three
  numbers are a date of the calendar (years 1 to 9999). Every other input, also an absent
  or empty one, gives no date; the result is a value in every case, never an error. On an
  input of the exact pattern DD.MM.YYYY in ASCII digits the result is the date it denotes
  when that is a date, and no date otherwise.
\<close>

theorem parse_ddmmyyyy_lenient:
  assumes ad: "ascii_decimal decimal"
  shows "(parse_ddmmyyyy decimal s = Some (y, m, d) \<longleftrightarrow>
            (\<exists>ds mm ys. s = Some (ds @ ascii ''.'' @ mm @ ascii ''.'' @ ys) \<and>
                         full_match decimal re_d ds \<and> full_match decimal re_m mm \<and>
                         full_match decimal re_Y ys \<and>
                         d = py_int decimal ds \<and> m = py_int decimal mm \<and>
                         y = py_int decimal ys \<and> valid_date y m d)) \<and>
         (exact_ddmmyyyy t \<longrightarrow>
            parse_ddmmyyyy decimal (Some t) =
              (if valid_date (py_int decimal (drop 6 t)) (py_int decimal (take 2 (drop 3 t)))
                    (py_int decimal (take 2 t))
               then Some (py_int decimal (drop 6 t), py_int decimal (take 2 (drop 3 t)),
                          py_int decimal (take 2 t))
               else None))"
proof (intro conjI impI)
  have dot: "decimal 46 = None"
    using ascii_decimal_digit [OF ad, of 46] by simp
  show "parse_ddmmyyyy decimal s = Some (y, m, d) \<longleftrightarrow>
            (\<exists>ds mm ys. s = Some (ds @ ascii ''.'' @ mm @ ascii ''.'' @ ys) \<and>
                         full_match decimal re_d ds \<and> full_match decimal re_m mm \<and>
                         full_match decimal re_Y ys \<and>
                         d = py_int decimal ds \<and> m = py_int decimal mm \<and>
                         y = py_int decimal ys \<and> valid_date y m d)"
  proof (cases s)
    case None
    then show ?thesis by (simp add: parse_ddmmyyyy_def)
  next
    case (Some u)
    show ?thesis
    proof (cases "u = []")
      case True
      then show ?thesis using Some by (simp add: parse_ddmmyyyy_def ascii_dot)
    next
      case False
      then have "parse_ddmmyyyy decimal s = strptime_date decimal u"
        using Some by (simp add: parse_ddmmyyyy_def)
      then show ?thesis using Some by (simp add: strptime_date_iff [where dec = decimal, OF dot] ascii_dot)
    qed
  qed
next
  assume ex: "exact_ddmmyyyy t"
  then have "t \<noteq> []"
    unfolding exact_ddmmyyyy_shape by auto
  then have "parse_ddmmyyyy decimal (Some t) = strptime_date decimal t"
    by (simp add: parse_ddmmyyyy_def)
  then show "parse_ddmmyyyy decimal (Some t) =
              (if valid_date (py_int decimal (drop 6 t)) (py_int decimal (take 2 (drop 3 t)))
                    (py_int decimal (take 2 t))
               then Some (py_int decimal (drop 6 t), py_int decimal (take 2 (drop 3 t)),
                          py_int decimal (take 2 t))
               else None)"
    using strptime_date_exact [OF ad ex] by simp
qed

theorem parse_ddmmyyyy_lenient_witness:
  "ascii_decimal example_decimal \<and>
   exact_ddmmyyyy (ascii ''01.03.2024'') \<and>
   parse_ddmmyyyy example_decimal (Some (ascii ''01.03.2024'')) = Some (2024, 3, 1) \<and>
   exact_ddmmyyyy (ascii ''31.02.2024'') \<and>
   parse_ddmmyyyy example_decimal (Some (ascii ''31.02.2024'')) = None \<and>
   parse_ddmmyyyy example_decimal (Some (ascii ''01.03.'' @ [1634, 1632, 1634, 1636]))
     = Some (2024, 3, 1) \<and>
   parse_ddmmyyyy example_decimal (Some ([49, 1634] @ ascii ''.03.2024'')) = Some (2024, 3, 12) \<and>
   parse_ddmmyyyy example_decimal (Some ([1632, 1633] @ ascii ''.03.2024'')) = None"
proof -
  have ad: "ascii_decimal example_decimal"
    by (simp add: ascii_decimal_def example_decimal_def)
  have e1: "exact_ddmmyyyy (ascii ''01.03.2024'')"
    by (simp add: exact_ddmmyyyy_def ddmmyyyy_pattern_def ascii_class_def ascii_def digits_def)
  have e2: "exact_ddmmyyyy (ascii ''31.02.2024'')"
    by (simp add: exact_ddmmyyyy_def ddmmyyyy_pattern_def ascii_class_def ascii_def digits_def)
  have t1: "take 2 (ascii ''01.03.2024'') = ascii ''01''"
           "take 2 (drop 3 (ascii ''01.03.2024'')) = ascii ''03''"
           "drop 6 (ascii ''01.03.2024'') = ascii ''2024''"
    by (simp_all add: ascii_def)
  have t2: "take 2 (ascii ''31.02.2024'') = ascii ''31''"
           "take 2 (drop 3 (ascii ''31.02.2024'')) = ascii ''02''"
           "drop 6 (ascii ''31.02.2024'') = ascii ''2024''"
    by (simp_all add: ascii_def)
  have n: "py_int example_decimal (ascii ''2024'') = 2024"
          "py_int example_decimal (ascii ''03'') = 3"
          "py_int example_decimal (ascii ''01'') = 1"
          "py_int example_decimal (ascii ''02'') = 2"
          "py_int example_decimal (ascii ''31'') = 31"
    by (simp_all add: py_int_def digit_val_def example_decimal_def ascii_def)
  have v1: "valid_date 2024 3 1"
    by (simp add: valid_date_def days_in_month_def is_leap_def)
  have v2: "\<not> valid_date 2024 2 31"
    by (simp add: valid_date_def days_in_month_def is_leap_def)
  from parse_ddmmyyyy_lenient [OF ad, where t = "ascii ''01.03.2024''"] e1
  have p1: "parse_ddmmyyyy example_decimal (Some (ascii ''01.03.2024'')) = Some (2024, 3, 1)"
    by (simp only: t1 n v1 if_True simp_thms)
  from parse_ddmmyyyy_lenient [OF ad, where t = "ascii ''31.02.2024''"] e2
  have p2: "parse_ddmmyyyy example_decimal (Some (ascii ''31.02.2024'')) = None"
    by (simp only: t2 n v2 if_False simp_thms)
  have u1: "parse_ddmmyyyy example_decimal (Some (ascii ''01.03.'' @ [1634, 1632, 1634, 1636]))
              = Some (2024, 3, 1)"
    by code_simp
  have u2: "parse_ddmmyyyy example_decimal (Some ([49, 1634] @ ascii ''.03.2024''))
              = Some (2024, 3, 12)"
    by code_simp
  have u3: "parse_ddmmyyyy example_decimal (Some ([1632, 1633] @ ascii ''.03.2024'')) = None"
    by code_simp
  from ad e1 p1 e2 p2 u1 u2 u3 show ?thesis by simp
qed

text \<open>
  C4 as stated fails: \<^verbatim>\<open>1.3.2024\<close> is not of the pattern DD.MM.YYYY, and it is parsed
  as the first of March 2024.
\<close>

theorem parse_ddmmyyyy_single_digits:
  "\<not> exact_ddmmyyyy (ascii ''1.3.2024'') \<and>
   parse_ddmmyyyy example_decimal (Some (ascii ''1.3.2024'')) = Some (2024, 3, 1)"
proof -
  have "\<not> exact_ddmmyyyy (ascii ''1.3.2024'')"
    by (simp add: exact_ddmmyyyy_def ddmmyyyy_pattern_def ascii_class_def ascii_def digits_def)
  moreover have "parse_ddmmyyyy example_decimal (Some (ascii ''1.3.2024'')) = Some (2024, 3, 1)"
    by code_simp
  ultimately show ?thesis by simp
qed

end
